theory Spec2Isabelle
  imports Complex_Main "HOL-Library.Log_Nat" "HOL-Library.Sublist"
begin

section \<open>JavaScript strings\<close>

text \<open>
  A JavaScript string is a sequence of UTF-16 code units. A code unit is modelled by its
  numeric value; the program only compares code units (equality and order), it never
  computes with them. All glyphs of \<^verbatim>\<open>app.js\<close> lie in the Basic Multilingual Plane,
  so each of them is one code unit.
\<close>

type_synonym jchar = nat
type_synonym jstring = "jchar list"

text \<open>ASCII literals are written as HOL strings and converted code unit by code unit.\<close>

definition js :: "string \<Rightarrow> jstring" where
  "js s = map of_char s"

text \<open>The four operator glyphs of line 11: U+FF0B, U+2212, U+00D7, U+00F7.\<close>

definition PLUS :: jchar where "PLUS = 65291"
definition MINUS :: jchar where "MINUS = 8722"
definition TIMES :: jchar where "TIMES = 215"
definition DIVIDE :: jchar where "DIVIDE = 247"

definition DOT :: jchar where "DOT = 46"
definition PCT :: jchar where "PCT = 37"
definition ZERO :: jchar where "ZERO = 48"

text \<open>The character class \<^verbatim>\<open>[0-9]\<close>.\<close>

definition is_digit :: "jchar \<Rightarrow> bool" where
  "is_digit c \<longleftrightarrow> 48 \<le> c \<and> c \<le> 57"

text \<open>
  \<^verbatim>\<open>isOp\<close> (line 11) asks whether \<^verbatim>\<open>c\<close> is included in the string of the four
  glyphs. \<^verbatim>\<open>String.prototype.includes\<close> tests for a contiguous substring, so the
  empty string and a run of two or more neighbouring glyphs satisfy it too.
\<close>

definition isOp :: "jstring \<Rightarrow> bool" where
  "isOp c \<longleftrightarrow> sublist c [PLUS, MINUS, TIMES, DIVIDE]"

text \<open>
  \<^verbatim>\<open>s.at(-1)\<close> and \<^verbatim>\<open>s.at(-2)\<close>: a one-unit string, or \<^verbatim>\<open>undefined\<close> (here
  \<open>None\<close>) when the string is too short.
\<close>

definition at_last :: "jstring \<Rightarrow> jstring option" where
  "at_last s = (if s = [] then None else Some [last s])"

definition at_last2 :: "jstring \<Rightarrow> jstring option" where
  "at_last2 s = (if length s < 2 then None else Some [last (butlast s)])"

text \<open>
  \<^verbatim>\<open>isOp(undefined)\<close> searches for the string \<^verbatim>\<open>"undefined"\<close> and is false.
\<close>

definition isOp_at :: "jstring option \<Rightarrow> bool" where
  "isOp_at c = (case c of None \<Rightarrow> False | Some u \<Rightarrow> isOp u)"

text \<open>
  The relational operators on strings (\<^verbatim>\<open>k >= '0'\<close>, \<^verbatim>\<open>k <= '9'\<close>) compare
  code unit by code unit; a proper prefix is smaller.
\<close>

fun str_le :: "jstring \<Rightarrow> jstring \<Rightarrow> bool" where
  "str_le [] ys = True"
| "str_le (x # xs) [] = False"
| "str_le (x # xs) (y # ys) = (x < y \<or> (x = y \<and> str_le xs ys))"

section \<open>JavaScript numbers\<close>

text \<open>
  A Number is an IEEE 754 binary64 value. The finite values are modelled by the real numbers
  they denote, and every arithmetic operation computes the exact result and
  rounds it to the nearest binary64 value, ties to even (\<open>round64\<close>), overflowing to
  an infinity. The two zeros are identified: the program observes numbers only through
  \<^verbatim>\<open>=== 0\<close>, \<^verbatim>\<open>isFinite\<close>, arithmetic and \<^verbatim>\<open>String\<close>, and none of them
  tells \<open>-0\<close> from \<open>+0\<close> except a division by zero, which the program never performs
  (the divisors are \<open>100\<close>, \<open>1e12\<close> and an operand guarded by \<^verbatim>\<open>b === 0\<close>).
\<close>

datatype jsnum = Fin real | PInf | NInf | NaN

definition pow2 :: "int \<Rightarrow> real" where
  "pow2 e = (if 0 \<le> e then 2 ^ nat e else 1 / 2 ^ nat (- e))"

definition pow10 :: "int \<Rightarrow> real" where
  "pow10 e = (if 0 \<le> e then 10 ^ nat e else 1 / 10 ^ nat (- e))"

text \<open>
  For \<open>0 < a\<close>: \<open>ilog b a\<close> is the integer \<open>e\<close> with \<open>b ^ e \<le> a < b ^ (e + 1)\<close>.
\<close>

definition ilog :: "nat \<Rightarrow> real \<Rightarrow> int" where
  "ilog b a = (if 1 \<le> a then int (floorlog b (nat \<lfloor>a\<rfloor>)) - 1
               else - int (floorlog b (nat (\<lceil>1 / a\<rceil> - 1))))"

definition round_even :: "real \<Rightarrow> int" where
  "round_even q =
     (let f = \<lfloor>q\<rfloor>; r = q - of_int f
      in if r < 1 / 2 then f else if 1 / 2 < r then f + 1
         else if even f then f else f + 1)"

text \<open>
  Rounding to binary64: 53 significant bits, the exponent of the least significant bit is
  at least \<open>-1074\<close> (subnormal numbers), and a result of magnitude \<open>2 ^ 1024\<close> or more
  is an infinity.
\<close>

definition round64 :: "real \<Rightarrow> jsnum" where
  "round64 q =
     (if q = 0 then Fin 0
      else let a = \<bar>q\<bar>; e = max (ilog 2 a) (- 1022); u = pow2 (e - 52);
               r = of_int (round_even (a / u)) * u
           in if pow2 1024 \<le> r then (if 0 < q then PInf else NInf)
              else Fin (if 0 < q then r else - r))"

fun jadd :: "jsnum \<Rightarrow> jsnum \<Rightarrow> jsnum" where
  "jadd NaN y = NaN"
| "jadd x NaN = NaN"
| "jadd PInf NInf = NaN"
| "jadd NInf PInf = NaN"
| "jadd PInf y = PInf"
| "jadd NInf y = NInf"
| "jadd x PInf = PInf"
| "jadd x NInf = NInf"
| "jadd (Fin a) (Fin b) = round64 (a + b)"

fun jsub :: "jsnum \<Rightarrow> jsnum \<Rightarrow> jsnum" where
  "jsub NaN y = NaN"
| "jsub x NaN = NaN"
| "jsub PInf PInf = NaN"
| "jsub NInf NInf = NaN"
| "jsub PInf y = PInf"
| "jsub NInf y = NInf"
| "jsub x PInf = NInf"
| "jsub x NInf = PInf"
| "jsub (Fin a) (Fin b) = round64 (a - b)"

fun jmul :: "jsnum \<Rightarrow> jsnum \<Rightarrow> jsnum" where
  "jmul NaN y = NaN"
| "jmul x NaN = NaN"
| "jmul (Fin a) (Fin b) = round64 (a * b)"
| "jmul (Fin a) PInf = (if a = 0 then NaN else if 0 < a then PInf else NInf)"
| "jmul (Fin a) NInf = (if a = 0 then NaN else if 0 < a then NInf else PInf)"
| "jmul PInf (Fin b) = (if b = 0 then NaN else if 0 < b then PInf else NInf)"
| "jmul NInf (Fin b) = (if b = 0 then NaN else if 0 < b then NInf else PInf)"
| "jmul PInf PInf = PInf"
| "jmul PInf NInf = NInf"
| "jmul NInf PInf = NInf"
| "jmul NInf NInf = PInf"

text \<open>
  Division. With the zeros identified, a zero divisor is read as \<open>+0\<close>; the program
  never divides by zero, see above.
\<close>

fun jdiv :: "jsnum \<Rightarrow> jsnum \<Rightarrow> jsnum" where
  "jdiv NaN y = NaN"
| "jdiv x NaN = NaN"
| "jdiv (Fin a) (Fin b) =
     (if b = 0 then (if a = 0 then NaN else if 0 < a then PInf else NInf)
      else round64 (a / b))"
| "jdiv (Fin a) PInf = Fin 0"
| "jdiv (Fin a) NInf = Fin 0"
| "jdiv PInf (Fin b) = (if 0 \<le> b then PInf else NInf)"
| "jdiv NInf (Fin b) = (if 0 \<le> b then NInf else PInf)"
| "jdiv PInf y = NaN"
| "jdiv NInf y = NaN"

text \<open>\<^verbatim>\<open>Math.round\<close>: the nearest integer, a tie going towards \<open>+\<infinity>\<close>.\<close>

fun Math_round :: "jsnum \<Rightarrow> jsnum" where
  "Math_round (Fin a) = Fin (of_int \<lfloor>a + 1 / 2\<rfloor>)"
| "Math_round x = x"

fun isFinite :: "jsnum \<Rightarrow> bool" where
  "isFinite (Fin a) = True"
| "isFinite x = False"

fun isNaN :: "jsnum \<Rightarrow> bool" where
  "isNaN NaN = True"
| "isNaN x = False"

definition EPSILON :: jsnum where
  "EPSILON = Fin (1 / 2 ^ 52)"

subsection \<open>String to Number\<close>

fun digits_val :: "nat \<Rightarrow> jstring \<Rightarrow> nat" where
  "digits_val acc [] = acc"
| "digits_val acc (c # cs) = digits_val (10 * acc + (c - 48)) cs"

text \<open>
  \<^verbatim>\<open>Number(t)\<close> on the strings the tokenizer emits: a run of digits and decimal
  points is a numeric literal when it holds at most one point and at least one digit
  (\<^verbatim>\<open>"12"\<close>, \<^verbatim>\<open>"1."\<close>, \<^verbatim>\<open>".5"\<close>, \<^verbatim>\<open>"1.5"\<close>); its value is the decimal value,
  rounded to the nearest binary64 value (ECMAScript lets an engine approximate a literal
  of more than twenty significant digits; the engines in use round correctly). Every other string of that alphabet (\<^verbatim>\<open>"."\<close>, \<^verbatim>\<open>"1.2.3"\<close>, an operator
  glyph, \<^verbatim>\<open>"%"\<close>) converts to \<^verbatim>\<open>NaN\<close>. The empty string converts to \<open>0\<close>. Other
  literal forms of JavaScript (white space, signs, exponents, radix prefixes,
  \<^verbatim>\<open>"Infinity"\<close>) never reach this function and are not modelled.
\<close>

definition Number :: "jstring \<Rightarrow> jsnum" where
  "Number t =
     (let ip = takeWhile is_digit t; r = dropWhile is_digit t
      in if t = [] then Fin 0
         else if r = [] then round64 (of_nat (digits_val 0 ip))
         else if hd r = DOT \<and> list_all is_digit (tl r) \<and> (ip \<noteq> [] \<or> tl r \<noteq> [])
              then round64 (of_nat (digits_val 0 (ip @ tl r)) / 10 ^ length (tl r))
         else NaN)"

subsection \<open>Number to String\<close>

function digits_of :: "nat \<Rightarrow> jstring" where
  "digits_of n = (if n < 10 then [48 + n] else digits_of (n div 10) @ [48 + n mod 10])"
  by pat_completeness auto
termination
  by (relation "measure id") auto

declare digits_of.simps [simp del]

text \<open>
  \<^verbatim>\<open>Number::toString\<close> picks integers \<open>n\<close>, \<open>k\<close>, \<open>s\<close> with \<open>k \<ge> 1\<close>,
  \<open>10 ^ (k - 1) \<le> s < 10 ^ k\<close>, such that \<open>s * 10 ^ (n - k)\<close> rounds to \<open>x\<close> and \<open>k\<close>
  is as small as possible; among several \<open>s\<close> the one closest to \<open>x\<close>, the even one
  on a tie. For a given \<open>k\<close> only the two \<open>k\<close>-digit decimals around \<open>x\<close> can do.
  \<open>candidate\<close> returns \<open>(s, n)\<close> for that \<open>k\<close>, if there is one.
\<close>

definition candidate :: "real \<Rightarrow> nat \<Rightarrow> (nat \<times> int) option" where
  "candidate x k =
     (let n0 = ilog 10 x + 1; sc = pow10 (n0 - int k);
          lo = \<lfloor>x / sc\<rfloor>; hi = lo + 1;
          lo_ok = (round64 (of_int lo * sc) = Fin x);
          hi_ok = (round64 (of_int hi * sc) = Fin x);
          dl = x - of_int lo * sc; dh = of_int hi * sc - x;
          use_lo = (if lo_ok \<and> hi_ok then dl < dh \<or> (dl = dh \<and> even lo) else lo_ok)
      in if \<not> (lo_ok \<or> hi_ok) then None
         else if use_lo then Some (nat lo, n0)
         else if hi = 10 ^ k then Some (10 ^ (k - 1), n0 + 1)
         else Some (nat hi, n0))"

text \<open>
  The search for the least \<open>k\<close>, from \<open>k\<close> upwards. Seventeen significant digits
  identify every binary64 value, so for such a value the search ends at \<open>k = 17\<close> at
  the latest; the digits returned beyond that bound only make the function total.
\<close>

function shortest :: "real \<Rightarrow> nat \<Rightarrow> nat \<times> int" where
  "shortest x k =
     (case candidate x k of
        Some r \<Rightarrow> r
      | None \<Rightarrow>
          if 17 \<le> k then (nat \<lfloor>x / pow10 (ilog 10 x + 1 - int k)\<rfloor>, ilog 10 x + 1)
          else shortest x (Suc k))"
  by pat_completeness auto
termination
  by (relation "measure (\<lambda>(x, k). 17 - k)") auto

declare shortest.simps [simp del]

definition format_pos :: "real \<Rightarrow> jstring" where
  "format_pos x =
     (let (s, n) = shortest x 1; ds = digits_of s; k = int (length ds)
      in if k \<le> n \<and> n \<le> 21 then ds @ replicate (nat (n - k)) ZERO
         else if 0 < n \<and> n \<le> 21 then take (nat n) ds @ [DOT] @ drop (nat n) ds
         else if - 6 < n \<and> n \<le> 0 then js ''0.'' @ replicate (nat (- n)) ZERO @ ds
         else let e = n - 1;
                  ex = (if 0 \<le> e then js ''e+'' else js ''e-'') @ digits_of (nat \<bar>e\<bar>)
              in if k = 1 then ds @ ex else [hd ds] @ [DOT] @ tl ds @ ex)"

fun String_num :: "jsnum \<Rightarrow> jstring" where
  "String_num NaN = js ''NaN''"
| "String_num PInf = js ''Infinity''"
| "String_num NInf = js ''-Infinity''"
| "String_num (Fin x) =
     (if x = 0 then js ''0''
      else if x < 0 then js ''-'' @ format_pos (- x)
      else format_pos x)"

section \<open>The expression engine\<close>

subsection \<open>Tokenizer (lines 15-32)\<close>

text \<open>
  The loop over the code units of \<open>s\<close>, with the array \<open>tokens\<close> and the pending
  literal \<open>buf\<close>. A code unit that is neither a digit, a point, an operator glyph nor
  \<^verbatim>\<open>%\<close> is skipped, and \<open>buf\<close> is kept across it.
\<close>

fun tokenize_loop :: "jstring \<Rightarrow> jstring list \<Rightarrow> jstring \<Rightarrow> jstring list" where
  "tokenize_loop [] tokens buf = (if buf \<noteq> [] then tokens @ [buf] else tokens)"
| "tokenize_loop (ch # s) tokens buf =
     (if is_digit ch \<or> ch = DOT then tokenize_loop s tokens (buf @ [ch])
      else if isOp [ch] \<or> [ch] = js ''%''
           then tokenize_loop s ((if buf \<noteq> [] then tokens @ [buf] else tokens) @ [[ch]]) []
      else tokenize_loop s tokens buf)"

definition tokenize :: "jstring \<Rightarrow> jstring list" where
  "tokenize s = tokenize_loop s [] []"

subsection \<open>Infix to postfix (lines 35-62)\<close>

text \<open>
  The output array holds numbers (\<^verbatim>\<open>Number(t)\<close>) and operator strings; the evaluator
  tells them apart with \<^verbatim>\<open>typeof\<close>.
\<close>

datatype rpn_item = RNum jsnum | RStr jstring

text \<open>
  The table \<^verbatim>\<open>prec\<close>; a key that is not in the table gives \<^verbatim>\<open>undefined\<close>, and
  a comparison with \<^verbatim>\<open>undefined\<close> is false.
\<close>

definition prec :: "jstring \<Rightarrow> nat option" where
  "prec t =
     (if t = [PLUS] then Some 1 else if t = [MINUS] then Some 1
      else if t = [TIMES] then Some 2 else if t = [DIVIDE] then Some 2
      else if t = js ''%'' then Some 3 else None)"

definition rightAssoc :: "jstring \<Rightarrow> bool" where
  "rightAssoc t \<longleftrightarrow> t = js ''%''"

fun prec_gt :: "nat option \<Rightarrow> nat option \<Rightarrow> bool" where
  "prec_gt (Some a) (Some b) = (b < a)"
| "prec_gt x y = False"

fun prec_ge :: "nat option \<Rightarrow> nat option \<Rightarrow> bool" where
  "prec_ge (Some a) (Some b) = (b \<le> a)"
| "prec_ge x y = False"

text \<open>
  \<^verbatim>\<open>while (op.length && c(op.at(-1))) out.push(op.pop())\<close>; both arrays grow and
  shrink at their end.
\<close>

function pop_while ::
  "(jstring \<Rightarrow> bool) \<Rightarrow> rpn_item list \<Rightarrow> jstring list \<Rightarrow> rpn_item list \<times> jstring list" where
  "pop_while c out op =
     (if op \<noteq> [] \<and> c (last op) then pop_while c (out @ [RStr (last op)]) (butlast op)
      else (out, op))"
  by pat_completeness auto
termination
  by (relation "measure (\<lambda>(c, out, op). length op)") auto

declare pop_while.simps [simp del]

fun toRPN_loop :: "jstring list \<Rightarrow> rpn_item list \<Rightarrow> jstring list \<Rightarrow> rpn_item list" where
  "toRPN_loop [] out op = fst (pop_while (\<lambda>p. True) out op)"
| "toRPN_loop (t # ts) out op =
     (if \<not> isNaN (Number t) then toRPN_loop ts (out @ [RNum (Number t)]) op
      else if t = js ''%'' then
        (case pop_while (\<lambda>p. prec_gt (prec p) (prec t)) out op of
           (out', op') \<Rightarrow> toRPN_loop ts out' (op' @ [t]))
      else
        (case pop_while (\<lambda>p. \<not> rightAssoc t \<and> prec_ge (prec p) (prec t)) out op of
           (out', op') \<Rightarrow> toRPN_loop ts out' (op' @ [t])))"

definition toRPN :: "jstring list \<Rightarrow> rpn_item list" where
  "toRPN tokens = toRPN_loop tokens [] []"

subsection \<open>Postfix evaluation (lines 65-98)\<close>

text \<open>\<^verbatim>\<open>st.pop()\<close>: the last element, or \<^verbatim>\<open>undefined\<close> on an empty array.\<close>

definition pop :: "'a list \<Rightarrow> 'a option \<times> 'a list" where
  "pop st = (if st = [] then (None, []) else (Some (last st), butlast st))"

text \<open>
  The loop of \<^verbatim>\<open>evalRPN\<close>. \<open>Inl r\<close> is an early \<^verbatim>\<open>return r\<close> from inside the
  loop, \<open>Inr st\<close> the stack when every token has been consumed. For \<^verbatim>\<open>%\<close> on an
  empty stack the code computes \<^verbatim>\<open>undefined / 100\<close>, which is \<^verbatim>\<open>NaN\<close>, and goes on.
\<close>

fun evalRPN_loop :: "rpn_item list \<Rightarrow> jsnum list \<Rightarrow> jsnum + jsnum list" where
  "evalRPN_loop [] st = Inr st"
| "evalRPN_loop (RNum n # rpn) st = evalRPN_loop rpn (st @ [n])"
| "evalRPN_loop (RStr t # rpn) st =
     (if t = js ''%'' then
        (case pop st of
           (None, st') \<Rightarrow> evalRPN_loop rpn (st' @ [NaN])
         | (Some a, st') \<Rightarrow> evalRPN_loop rpn (st' @ [jdiv a (Fin 100)]))
      else
        (case pop st of (b, st1) \<Rightarrow>
         case pop st1 of (a, st2) \<Rightarrow>
         case (a, b) of
           (Some a, Some b) \<Rightarrow>
             if t = [PLUS] then evalRPN_loop rpn (st2 @ [jadd a b])
             else if t = [MINUS] then evalRPN_loop rpn (st2 @ [jsub a b])
             else if t = [TIMES] then evalRPN_loop rpn (st2 @ [jmul a b])
             else if t = [DIVIDE] then
               evalRPN_loop rpn (st2 @ [if b = Fin 0 then NaN else jdiv a b])
             else Inl NaN
         | _ \<Rightarrow> Inl NaN))"

text \<open>Line 97: \<^verbatim>\<open>return st.length ? st[0] : NaN\<close>.\<close>

definition evalRPN :: "rpn_item list \<Rightarrow> jsnum" where
  "evalRPN rpn =
     (case evalRPN_loop rpn [] of
        Inl r \<Rightarrow> r
      | Inr st \<Rightarrow> if st \<noteq> [] then hd st else NaN)"

subsection \<open>The compute pipeline (lines 100-109)\<close>

text \<open>
  \<^verbatim>\<open>compute\<close> returns the number \<open>0\<close> for the empty string (line 101) and a string
  otherwise.
\<close>

datatype jsval = JNum jsnum | JStr jstring

definition normalize_res :: "jsnum \<Rightarrow> jsnum" where
  "normalize_res res =
     jdiv (Math_round (jmul (jadd res EPSILON) (Fin 1000000000000))) (Fin 1000000000000)"

definition compute :: "jstring \<Rightarrow> jsval" where
  "compute s =
     (if s = [] then JNum (Fin 0)
      else let tokens = tokenize s; rpn = toRPN tokens; res = evalRPN rpn
           in if \<not> isFinite res then JStr (js ''Err'')
              else JStr (String_num (normalize_res res)))"

section \<open>The input state machine\<close>

text \<open>
  The longest suffix of \<open>s\<close> that a pattern anchored with \<^verbatim>\<open>$\<close> matches: the regular
  expression engine tries the start positions from left to right and takes the first
  at which the rest of the string matches as a whole.
\<close>

fun match_tail :: "(jstring \<Rightarrow> bool) \<Rightarrow> jstring \<Rightarrow> jstring" where
  "match_tail p [] = []"
| "match_tail p (c # s) = (if p (c # s) then c # s else match_tail p s)"

text \<open>The language of \<^verbatim>\<open>[0-9]*\.?[0-9]*\<close>.\<close>

definition num_run :: "jstring \<Rightarrow> bool" where
  "num_run s =
     (let r = dropWhile is_digit s
      in r = [] \<or> (hd r = DOT \<and> list_all is_digit (tl r)))"

text \<open>The language of \<^verbatim>\<open>[0-9]*\.?[0-9]*%?\<close>.\<close>

definition num_run_pct :: "jstring \<Rightarrow> bool" where
  "num_run_pct s = (num_run s \<or> (s \<noteq> [] \<and> last s = PCT \<and> num_run (butlast s)))"

text \<open>Lines 191-194.\<close>

definition getCurrentNumber :: "jstring \<Rightarrow> jstring" where
  "getCurrentNumber s = match_tail num_run s"

text \<open>Lines 196-202.\<close>

definition tail_match :: "jstring \<Rightarrow> jstring" where
  "tail_match s = (let m1 = match_tail num_run_pct s in if m1 \<noteq> [] then m1 else s)"

definition tailDisplay :: "jstring \<Rightarrow> jstring" where
  "tailDisplay s =
     (case at_last s of
        None \<Rightarrow> tail_match s
      | Some l \<Rightarrow> if isOp l \<or> l = js ''%'' then l else tail_match s)"

text \<open>\<^verbatim>\<open>/[0-9]$/.test(expr)\<close>.\<close>

definition ends_in_digit :: "jstring \<Rightarrow> bool" where
  "ends_in_digit s \<longleftrightarrow> s \<noteq> [] \<and> is_digit (last s)"

record state =
  expr :: jstring
  display :: jstring

definition init :: state where
  "init = \<lparr>expr = [], display = js ''0''\<rparr>"

text \<open>
  \<^verbatim>\<open>press\<close> (lines 116-189), without the calls of \<^verbatim>\<open>updateUI\<close>. Both fields of
  the state are strings. \<^verbatim>\<open>compute\<close> returns a number instead of a string when its
  argument is empty; \<^verbatim>\<open>press\<close> would store that number in both fields, which the
  record cannot hold, so that outcome is \<open>None\<close>. Lemma \<open>presses_Some\<close> below shows
  that it never happens from the initial state.
\<close>

definition press :: "jstring \<Rightarrow> state \<Rightarrow> state option" where
  "press k st =
     (if k = js ''C'' then Some \<lparr>expr = [], display = js ''0''\<rparr>
      else if k = js ''DEL'' then
        (let e = (if expr st \<noteq> [] then butlast (expr st) else expr st)
         in Some \<lparr>expr = e, display = (if e \<noteq> [] then tailDisplay e else js ''0'')\<rparr>)
      else if k = js ''='' then
        (case compute (if expr st \<noteq> [] then expr st else display st) of
           JStr result \<Rightarrow>
             Some \<lparr>expr = (if result = js ''Err'' then [] else result), display = result\<rparr>
         | JNum n \<Rightarrow> None)
      else if k = js ''.'' then
        (if DOT \<in> set (getCurrentNumber (expr st)) then Some st
         else let e = expr st @ (if expr st \<noteq> [] \<and> ends_in_digit (expr st)
                                 then js ''.'' else js ''0.'')
              in Some \<lparr>expr = e, display = tailDisplay e\<rparr>)
      else if k = js ''%'' then
        (if ends_in_digit (expr st)
         then (let e = expr st @ js ''%'' in Some \<lparr>expr = e, display = tailDisplay e\<rparr>)
         else Some st)
      else if isOp k then
        (if expr st = [] then
           (if k = [MINUS] then Some \<lparr>expr = js ''0'' @ [MINUS], display = [MINUS]\<rparr>
            else Some st)
         else let e1 = (if isOp_at (at_last (expr st)) then butlast (expr st) else expr st);
                  e2 = (if at_last e1 = Some (js ''.'') then butlast e1 else e1)
              in Some \<lparr>expr = e2 @ k, display = k\<rparr>)
      else if str_le (js ''0'') k \<and> str_le k (js ''9'') then
        (let e = (if expr st \<noteq> [] \<and> last (expr st) = ZERO
                     \<and> (length (expr st) = 1 \<or> isOp_at (at_last2 (expr st)))
                     \<and> k \<noteq> js ''0''
                  then butlast (expr st) @ k else expr st @ k)
         in Some \<lparr>expr = e, display = tailDisplay e\<rparr>)
      else Some st)"

text \<open>A sequence of key presses, the first key of the list first.\<close>

fun presses :: "jstring list \<Rightarrow> state \<Rightarrow> state option" where
  "presses [] st = Some st"
| "presses (k # ks) st = (case press k st of None \<Rightarrow> None | Some st' \<Rightarrow> presses ks st')"

section \<open>Notions used by the specification\<close>

text \<open>
  The logical key alphabet: the ten digits, the decimal point, the four operator glyphs,
  \<^verbatim>\<open>%\<close>, \<^verbatim>\<open>=\<close>, \<^verbatim>\<open>C\<close> and \<^verbatim>\<open>DEL\<close>.
\<close>

definition alphabet :: "jstring list" where
  "alphabet =
     [js ''0'', js ''1'', js ''2'', js ''3'', js ''4'', js ''5'', js ''6'', js ''7'',
      js ''8'', js ''9'', js ''.'', [PLUS], [MINUS], [TIMES], [DIVIDE], js ''%'', js ''='',
      js ''C'', js ''DEL'']"

text \<open>
  A token sequence that is empty or a well-formed prefix of an infix expression: operands
  and binary operators alternate, starting with an operand; an operand is a numeric
  literal, optionally followed by one \<^verbatim>\<open>%\<close>; the sequence may end in a binary operator
  that awaits its operand.
\<close>

definition is_literal :: "jstring \<Rightarrow> bool" where
  "is_literal t \<longleftrightarrow> \<not> isNaN (Number t)"

definition is_binop :: "jstring \<Rightarrow> bool" where
  "is_binop t \<longleftrightarrow> t = [PLUS] \<or> t = [MINUS] \<or> t = [TIMES] \<or> t = [DIVIDE]"

fun want_operand :: "jstring list \<Rightarrow> bool"
  and after_literal :: "jstring list \<Rightarrow> bool"
  and after_percent :: "jstring list \<Rightarrow> bool" where
  "want_operand [] = True"
| "want_operand (t # ts) = (is_literal t \<and> after_literal ts)"
| "after_literal [] = True"
| "after_literal (t # ts) =
     (if t = js ''%'' then after_percent ts else is_binop t \<and> want_operand ts)"
| "after_percent [] = True"
| "after_percent (t # ts) = (is_binop t \<and> want_operand ts)"

definition wf_prefix :: "jstring list \<Rightarrow> bool" where
  "wf_prefix tokens = want_operand tokens"

text \<open>
  The relation between the two fields that the tail-display rule maintains: with an empty
  buffer the display is \<^verbatim>\<open>"0"\<close>, otherwise it is the projection of the buffer.
\<close>

definition shows_tail :: "state \<Rightarrow> bool" where
  "shows_tail st \<longleftrightarrow>
     (if expr st = [] then display st = js ''0'' else tailDisplay (expr st) = display st)"

text \<open>
  An invariant of \<^verbatim>\<open>press\<close> under arbitrary key strings: an empty buffer comes with a
  non-empty display, and a non-empty buffer does not start with a decimal point or an
  operator glyph. It keeps the argument of \<^verbatim>\<open>compute\<close> non-empty.
\<close>

definition resumable :: "state \<Rightarrow> bool" where
  "resumable st \<longleftrightarrow>
     (expr st = [] \<longrightarrow> display st \<noteq> []) \<and>
     (expr st \<noteq> [] \<longrightarrow> hd (expr st) \<notin> {DOT, PLUS, MINUS, TIMES, DIVIDE})"

section \<open>Evaluation lemmas\<close>

lemmas chars = PLUS_def MINUS_def TIMES_def DIVIDE_def DOT_def PCT_def ZERO_def js_def is_digit_def

lemmas round64_eval = ilog_def compute_floorlog pow2_def pow10_def round_even_def

lemma isOp_iff:
  "isOp k \<longleftrightarrow> k \<in> {[], [PLUS], [MINUS], [TIMES], [DIVIDE], [PLUS, MINUS], [MINUS, TIMES],
     [TIMES, DIVIDE], [PLUS, MINUS, TIMES], [MINUS, TIMES, DIVIDE], [PLUS, MINUS, TIMES, DIVIDE]}"
  unfolding isOp_def by (auto simp: sublist_Cons_right prefix_Cons)

lemma isOp_single: "isOp [c] \<longleftrightarrow> c = PLUS \<or> c = MINUS \<or> c = TIMES \<or> c = DIVIDE"
  by (auto simp: isOp_iff)

lemma digits_of_numeral:
  "digits_of (numeral k) =
     (if (numeral k :: nat) < 10 then [48 + numeral k]
      else digits_of (numeral k div 10) @ [48 + numeral k mod 10])"
  by (subst digits_of.simps) simp

lemma digits_of_small: "digits_of 0 = [48]" "digits_of (Suc 0) = [49]"
  by (subst digits_of.simps, simp)+

lemma pop_while_Nil: "pop_while c out [] = (out, [])"
  by (subst pop_while.simps) simp

lemma pop_while_Cons:
  "pop_while c out (x # xs) =
     (if c (last (x # xs)) then pop_while c (out @ [RStr (last (x # xs))]) (butlast (x # xs))
      else (out, x # xs))"
  by (subst pop_while.simps) simp

lemma shortest_Some: "candidate x k = Some r \<Longrightarrow> shortest x k = r"
  by (subst shortest.simps) simp

lemma shortest_None:
  "candidate x k = None \<Longrightarrow> k < 17 \<Longrightarrow> shortest x k = shortest x (Suc k)"
  by (subst shortest.simps) simp

lemmas toRPN_eval = toRPN_def pop_while_Nil pop_while_Cons prec_def rightAssoc_def

subsection \<open>Literals\<close>

lemma Number_digit:
  "Number (js ''0'') = Fin 0" "Number (js ''2'') = Fin 2" "Number (js ''3'') = Fin 3"
  "Number (js ''4'') = Fin 4" "Number (js ''5'') = Fin 5"
  unfolding Number_def round64_def Let_def by (simp_all add: chars round64_eval)

lemma Number_op:
  "Number [PLUS] = NaN" "Number [MINUS] = NaN" "Number [TIMES] = NaN" "Number [DIVIDE] = NaN"
  "Number (js ''%'') = NaN"
  unfolding Number_def Let_def by (simp_all add: chars)

subsection \<open>Arithmetic\<close>

lemma jmul_3_4: "jmul (Fin 3) (Fin 4) = Fin 12"
  unfolding jmul.simps round64_def Let_def by (simp add: round64_eval)

lemma jadd_2_12: "jadd (Fin 2) (Fin 12) = Fin 14"
  unfolding jadd.simps round64_def Let_def by (simp add: round64_eval)

lemma jsub_3_5: "jsub (Fin 3) (Fin 5) = Fin (- 2)"
  unfolding jsub.simps round64_def Let_def by (simp add: round64_eval)

lemma jdiv_3_100: "jdiv (Fin 3) (Fin 100) = Fin (1080863910568919 / 36028797018963968)"
  unfolding jdiv.simps round64_def Let_def by (simp add: round64_eval)

lemma normalize_14: "normalize_res (Fin 14) = Fin 14"
proof -
  have 1: "jadd (Fin 14) EPSILON = Fin 14"
    unfolding EPSILON_def jadd.simps round64_def Let_def by (simp add: round64_eval)
  have 2: "jmul (Fin 14) (Fin 1000000000000) = Fin 14000000000000"
    unfolding jmul.simps round64_def Let_def by (simp add: round64_eval)
  have 3: "Math_round (Fin 14000000000000) = Fin 14000000000000"
    by simp
  have 4: "jdiv (Fin 14000000000000) (Fin 1000000000000) = Fin 14"
    unfolding jdiv.simps round64_def Let_def by (simp add: round64_eval)
  show ?thesis
    unfolding normalize_res_def 1 2 3 4 ..
qed

lemma normalize_2: "normalize_res (Fin 2) = Fin 2"
proof -
  have 1: "jadd (Fin 2) EPSILON = Fin 2"
    unfolding EPSILON_def jadd.simps round64_def Let_def by (simp add: round64_eval)
  have 2: "jmul (Fin 2) (Fin 1000000000000) = Fin 2000000000000"
    unfolding jmul.simps round64_def Let_def by (simp add: round64_eval)
  have 3: "Math_round (Fin 2000000000000) = Fin 2000000000000"
    by simp
  have 4: "jdiv (Fin 2000000000000) (Fin 1000000000000) = Fin 2"
    unfolding jdiv.simps round64_def Let_def by (simp add: round64_eval)
  show ?thesis
    unfolding normalize_res_def 1 2 3 4 ..
qed

lemma normalize_minus_2: "normalize_res (Fin (- 2)) = Fin (- 2)"
proof -
  have 1: "jadd (Fin (- 2)) EPSILON = Fin (- 9007199254740991 / 4503599627370496)"
    unfolding EPSILON_def jadd.simps round64_def Let_def by (simp add: round64_eval)
  have 2: "jmul (Fin (- 9007199254740991 / 4503599627370496)) (Fin 1000000000000)
             = Fin (- 8191999999999999 / 4096)"
    unfolding jmul.simps round64_def Let_def by (simp add: round64_eval)
  have 3: "Math_round (Fin (- 8191999999999999 / 4096)) = Fin (- 2000000000000)"
    by simp
  have 4: "jdiv (Fin (- 2000000000000)) (Fin 1000000000000) = Fin (- 2)"
    unfolding jdiv.simps round64_def Let_def by (simp add: round64_eval)
  show ?thesis
    unfolding normalize_res_def 1 2 3 4 ..
qed

subsection \<open>Number to string\<close>

lemma format_14: "format_pos 14 = js ''14''"
proof -
  have 1: "candidate 14 1 = None"
    unfolding candidate_def round64_def Let_def by (simp add: round64_eval)
  have 2: "candidate 14 (Suc 1) = Some (14, 2)"
    unfolding candidate_def round64_def Let_def by (simp add: round64_eval)
  have "shortest 14 1 = (14, 2)"
    using shortest_None [OF 1] shortest_Some [OF 2] by simp
  then show ?thesis
    by (simp add: format_pos_def digits_of_numeral digits_of_small chars)
qed

lemma format_2: "format_pos 2 = js ''2''"
proof -
  have 1: "candidate 2 1 = Some (2, 1)"
    unfolding candidate_def round64_def Let_def by (simp add: round64_eval)
  have "shortest 2 1 = (2, 1)"
    using shortest_Some [OF 1] by simp
  then show ?thesis
    by (simp add: format_pos_def digits_of_numeral digits_of_small chars)
qed

section \<open>The compute pipeline on concrete inputs\<close>

lemma tokenize_C3:
  "tokenize (js ''2'' @ [PLUS] @ js ''3'' @ [TIMES] @ js ''4'') = [js ''2'', [PLUS], js ''3'', [TIMES], js ''4'']"
  by (simp add: tokenize_def isOp_single chars)

lemma toRPN_C3:
  "toRPN [js ''2'', [PLUS], js ''3'', [TIMES], js ''4'']
     = [RNum (Fin 2), RNum (Fin 3), RNum (Fin 4), RStr [TIMES], RStr [PLUS]]"
  by (simp add: toRPN_eval Number_digit Number_op) (simp add: chars)

lemma evalRPN_C3:
  "evalRPN [RNum (Fin 2), RNum (Fin 3), RNum (Fin 4), RStr [TIMES], RStr [PLUS]] = Fin 14"
  unfolding evalRPN_def
  by (simp add: pop_def chars jmul_3_4 jadd_2_12 del: jadd.simps jmul.simps)

lemma jmul_2_3: "jmul (Fin 2) (Fin 3) = Fin 6"
  unfolding jmul.simps round64_def Let_def by (simp add: round64_eval)

lemma jadd_6_4: "jadd (Fin 6) (Fin 4) = Fin 10"
  unfolding jadd.simps round64_def Let_def by (simp add: round64_eval)

lemma normalize_10: "normalize_res (Fin 10) = Fin 10"
proof -
  have 1: "jadd (Fin 10) EPSILON = Fin 10"
    unfolding EPSILON_def jadd.simps round64_def Let_def by (simp add: round64_eval)
  have 2: "jmul (Fin 10) (Fin 1000000000000) = Fin 10000000000000"
    unfolding jmul.simps round64_def Let_def by (simp add: round64_eval)
  have 3: "Math_round (Fin 10000000000000) = Fin 10000000000000"
    by simp
  have 4: "jdiv (Fin 10000000000000) (Fin 1000000000000) = Fin 10"
    unfolding jdiv.simps round64_def Let_def by (simp add: round64_eval)
  show ?thesis
    unfolding normalize_res_def 1 2 3 4 ..
qed

lemma format_10: "format_pos 10 = js ''10''"
proof -
  have 1: "candidate 10 1 = Some (1, 2)"
    unfolding candidate_def round64_def Let_def by (simp add: round64_eval)
  have "shortest 10 1 = (1, 2)"
    using shortest_Some [OF 1] by simp
  then show ?thesis
    by (simp add: format_pos_def digits_of_numeral digits_of_small chars)
qed

lemma tokenize_mul_add:
  "tokenize (js ''2'' @ [TIMES] @ js ''3'' @ [PLUS] @ js ''4'')
     = [js ''2'', [TIMES], js ''3'', [PLUS], js ''4'']"
  by (simp add: tokenize_def isOp_single chars)

text \<open>The two shapes, for arbitrary numeric literals.\<close>

lemma toRPN_add_mul:
  assumes "is_literal a" and "is_literal b" and "is_literal c"
  shows "toRPN [a, [PLUS], b, [TIMES], c]
           = [RNum (Number a), RNum (Number b), RNum (Number c), RStr [TIMES], RStr [PLUS]]"
  using assms unfolding is_literal_def
  by (simp add: toRPN_eval Number_op) (simp add: chars)

lemma toRPN_mul_add:
  assumes "is_literal a" and "is_literal b" and "is_literal c"
  shows "toRPN [a, [TIMES], b, [PLUS], c]
           = [RNum (Number a), RNum (Number b), RStr [TIMES], RNum (Number c), RStr [PLUS]]"
  using assms unfolding is_literal_def
  by (simp add: toRPN_eval Number_op) (simp add: chars)

lemma evalRPN_add_mul:
  "evalRPN [RNum x, RNum y, RNum z, RStr [TIMES], RStr [PLUS]] = jadd x (jmul y z)"
  unfolding evalRPN_def by (simp add: pop_def chars del: jadd.simps jmul.simps)

lemma evalRPN_mul_add:
  "evalRPN [RNum x, RNum y, RStr [TIMES], RNum z, RStr [PLUS]] = jadd (jmul x y) z"
  unfolding evalRPN_def by (simp add: pop_def chars del: jadd.simps jmul.simps)

lemma is_literal_digit: "is_literal (js ''2'')" "is_literal (js ''3'')" "is_literal (js ''4'')"
  by (simp_all add: is_literal_def Number_digit)

lemma compute_mul_add:
  "compute (js ''2'' @ [TIMES] @ js ''3'' @ [PLUS] @ js ''4'') = JStr (js ''10'')"
  unfolding compute_def Let_def tokenize_mul_add toRPN_mul_add [OF is_literal_digit]
    evalRPN_mul_add Number_digit jmul_2_3 jadd_6_4
  by (simp add: normalize_10 format_10)

text \<open>
  Claim C3: \<^verbatim>\<open>compute\<close> on the string \<open>2 + 3 * 4\<close> (written with the operator glyphs)
  returns the string \<^verbatim>\<open>"14"\<close>, because multiplication binds tighter than addition:
  for all numeric literals \<open>a\<close>, \<open>b\<close>, \<open>c\<close> the converter turns \<open>a + b * c\<close> into
  the postfix form \<open>a b c * +\<close>, which evaluates to \<open>a + (b * c)\<close>, and \<open>a * b + c\<close>
  into \<open>a b * c +\<close>, which evaluates to \<open>(a * b) + c\<close>; so \<open>2 * 3 + 4\<close> gives
  \<^verbatim>\<open>"10"\<close>.
\<close>

theorem compute_precedence:
  "compute (js ''2'' @ [PLUS] @ js ''3'' @ [TIMES] @ js ''4'') = JStr (js ''14'')
   \<and> toRPN (tokenize (js ''2'' @ [PLUS] @ js ''3'' @ [TIMES] @ js ''4''))
       = [RNum (Fin 2), RNum (Fin 3), RNum (Fin 4), RStr [TIMES], RStr [PLUS]]
   \<and> compute (js ''2'' @ [TIMES] @ js ''3'' @ [PLUS] @ js ''4'') = JStr (js ''10'')
   \<and> toRPN (tokenize (js ''2'' @ [TIMES] @ js ''3'' @ [PLUS] @ js ''4''))
       = [RNum (Fin 2), RNum (Fin 3), RStr [TIMES], RNum (Fin 4), RStr [PLUS]]
   \<and> (is_literal a \<and> is_literal b \<and> is_literal c \<longrightarrow>
        toRPN [a, [PLUS], b, [TIMES], c]
          = [RNum (Number a), RNum (Number b), RNum (Number c), RStr [TIMES], RStr [PLUS]]
      \<and> evalRPN (toRPN [a, [PLUS], b, [TIMES], c])
          = jadd (Number a) (jmul (Number b) (Number c))
      \<and> toRPN [a, [TIMES], b, [PLUS], c]
          = [RNum (Number a), RNum (Number b), RStr [TIMES], RNum (Number c), RStr [PLUS]]
      \<and> evalRPN (toRPN [a, [TIMES], b, [PLUS], c])
          = jadd (jmul (Number a) (Number b)) (Number c))"
proof (intro conjI impI)
  show "compute (js ''2'' @ [PLUS] @ js ''3'' @ [TIMES] @ js ''4'') = JStr (js ''14'')"
    unfolding compute_def Let_def tokenize_C3 toRPN_C3 evalRPN_C3
    by (simp add: normalize_14 format_14)
  show "toRPN (tokenize (js ''2'' @ [PLUS] @ js ''3'' @ [TIMES] @ js ''4''))
       = [RNum (Fin 2), RNum (Fin 3), RNum (Fin 4), RStr [TIMES], RStr [PLUS]]"
    unfolding tokenize_C3 by (rule toRPN_C3)
  show "compute (js ''2'' @ [TIMES] @ js ''3'' @ [PLUS] @ js ''4'') = JStr (js ''10'')"
    by (rule compute_mul_add)
  show "toRPN (tokenize (js ''2'' @ [TIMES] @ js ''3'' @ [PLUS] @ js ''4''))
       = [RNum (Fin 2), RNum (Fin 3), RStr [TIMES], RNum (Fin 4), RStr [PLUS]]"
    unfolding tokenize_mul_add toRPN_mul_add [OF is_literal_digit] Number_digit ..
next
  assume lit: "is_literal a \<and> is_literal b \<and> is_literal c"
  then have 1: "toRPN [a, [PLUS], b, [TIMES], c]
          = [RNum (Number a), RNum (Number b), RNum (Number c), RStr [TIMES], RStr [PLUS]]"
    by (simp add: toRPN_add_mul)
  from lit have 2: "toRPN [a, [TIMES], b, [PLUS], c]
          = [RNum (Number a), RNum (Number b), RStr [TIMES], RNum (Number c), RStr [PLUS]]"
    by (simp add: toRPN_mul_add)
  show "toRPN [a, [PLUS], b, [TIMES], c]
          = [RNum (Number a), RNum (Number b), RNum (Number c), RStr [TIMES], RStr [PLUS]]"
    by (rule 1)
  show "evalRPN (toRPN [a, [PLUS], b, [TIMES], c]) = jadd (Number a) (jmul (Number b) (Number c))"
    unfolding 1 by (rule evalRPN_add_mul)
  show "toRPN [a, [TIMES], b, [PLUS], c]
          = [RNum (Number a), RNum (Number b), RStr [TIMES], RNum (Number c), RStr [PLUS]]"
    by (rule 2)
  show "evalRPN (toRPN [a, [TIMES], b, [PLUS], c]) = jadd (jmul (Number a) (Number b)) (Number c)"
    unfolding 2 by (rule evalRPN_mul_add)
qed

text \<open>
  Claim C3, witness: the literals \<open>2\<close>, \<open>3\<close>, \<open>4\<close> in both shapes.
\<close>

theorem compute_precedence_witness:
  "is_literal (js ''2'') \<and> is_literal (js ''3'') \<and> is_literal (js ''4'')
   \<and> evalRPN (toRPN [js ''2'', [PLUS], js ''3'', [TIMES], js ''4'']) = Fin 14
   \<and> evalRPN (toRPN [js ''2'', [TIMES], js ''3'', [PLUS], js ''4'']) = Fin 10"
proof -
  have lit: "is_literal (js ''2'') \<and> is_literal (js ''3'') \<and> is_literal (js ''4'')"
    by (simp add: is_literal_digit)
  with compute_precedence [of "js ''2''" "js ''3''" "js ''4''"]
  have "evalRPN (toRPN [js ''2'', [PLUS], js ''3'', [TIMES], js ''4''])
          = jadd (Number (js ''2'')) (jmul (Number (js ''3'')) (Number (js ''4'')))"
    and "evalRPN (toRPN [js ''2'', [TIMES], js ''3'', [PLUS], js ''4''])
          = jadd (jmul (Number (js ''2'')) (Number (js ''3''))) (Number (js ''4''))"
    by blast+
  then show ?thesis
    using lit unfolding Number_digit jmul_3_4 jadd_2_12 jmul_2_3 jadd_6_4 by blast
qed

text \<open>
  Claim C5: the claim says that \<^verbatim>\<open>compute\<close> returns the string \<^verbatim>\<open>"0"\<close> for the
  empty string. Line 101 returns the number \<open>0\<close>, not a string.
\<close>

theorem compute_empty: "compute [] = JNum (Fin 0) \<and> compute [] \<noteq> JStr (js ''0'')"
  by (simp add: compute_def)

lemma tokenize_C7: "tokenize (js ''5'' @ [DIVIDE] @ js ''0'') = [js ''5'', [DIVIDE], js ''0'']"
  by (simp add: tokenize_def isOp_single chars)

lemma toRPN_C7:
  "toRPN [js ''5'', [DIVIDE], js ''0''] = [RNum (Fin 5), RNum (Fin 0), RStr [DIVIDE]]"
  by (simp add: toRPN_eval Number_digit Number_op)

lemma evalRPN_C7: "evalRPN [RNum (Fin 5), RNum (Fin 0), RStr [DIVIDE]] = NaN"
  unfolding evalRPN_def by (simp add: pop_def chars)

lemma pop_snoc: "pop (st @ [x]) = (Some x, st)"
  by (simp add: pop_def)

lemma pop_snoc2: "pop (st @ [x, y]) = (Some y, st @ [x])"
  using pop_snoc [of "st @ [x]" y] by simp

lemma div_by_zero_step:
  "evalRPN_loop (RStr [DIVIDE] # rpn) (st @ [a, Fin 0]) = evalRPN_loop rpn (st @ [NaN])"
  by (simp add: pop_snoc pop_snoc2 chars)

text \<open>
  Claim C7: \<^verbatim>\<open>compute\<close> on \<open>5 / 0\<close> returns \<^verbatim>\<open>"Err"\<close>. In the evaluator a
  division whose divisor is zero pushes \<^verbatim>\<open>NaN\<close> whatever the dividend is, and the loop
  goes on: no early exit and no infinity.
\<close>

theorem compute_div_zero:
  "compute (js ''5'' @ [DIVIDE] @ js ''0'') = JStr (js ''Err'')
   \<and> (\<forall>a st rpn. evalRPN_loop (RStr [DIVIDE] # rpn) (st @ [a, Fin 0])
                     = evalRPN_loop rpn (st @ [NaN]))"
proof (intro conjI allI)
  show "compute (js ''5'' @ [DIVIDE] @ js ''0'') = JStr (js ''Err'')"
    unfolding compute_def Let_def tokenize_C7 toRPN_C7 evalRPN_C7 by simp
next
  fix a st rpn
  show "evalRPN_loop (RStr [DIVIDE] # rpn) (st @ [a, Fin 0]) = evalRPN_loop rpn (st @ [NaN])"
    by (rule div_by_zero_step)
qed

section \<open>Key sequences\<close>

lemmas press_eval = press_def isOp_iff at_last_def at_last2_def isOp_at_def tailDisplay_def tail_match_def
  num_run_pct_def num_run_def getCurrentNumber_def ends_in_digit_def init_def Let_def chars

lemma press_3: "press (js ''3'') init = Some \<lparr>expr = js ''3'', display = js ''3''\<rparr>"
  by (simp add: press_eval)
lemma press_3_minus: "press [MINUS] \<lparr>expr = js ''3'', display = js ''3''\<rparr> = Some \<lparr>expr = js ''3'' @ [MINUS], display = [MINUS]\<rparr>"
  by (simp add: press_eval)
lemma press_3_minus_5: "press (js ''5'') \<lparr>expr = js ''3'' @ [MINUS], display = [MINUS]\<rparr> = Some \<lparr>expr = js ''3'' @ [MINUS] @ js ''5'', display = js ''5''\<rparr>"
  by (simp add: press_eval)

lemma tokenize_3m5: "tokenize (js ''3'' @ [MINUS] @ js ''5'') = [js ''3'', [MINUS], js ''5'']"
  by (simp add: tokenize_def isOp_single chars)
lemma toRPN_3m5: "toRPN [js ''3'', [MINUS], js ''5''] = [RNum (Fin 3), RNum (Fin 5), RStr [MINUS]]"
  by (simp add: toRPN_eval Number_digit Number_op)
lemma evalRPN_3m5: "evalRPN [RNum (Fin 3), RNum (Fin 5), RStr [MINUS]] = Fin (- 2)"
  unfolding evalRPN_def by (simp add: pop_def chars jsub_3_5 del: jsub.simps)
lemma compute_3m5: "compute (js ''3'' @ [MINUS] @ js ''5'') = JStr (js ''-2'')"
  unfolding compute_def Let_def tokenize_3m5 toRPN_3m5 evalRPN_3m5
  by (simp add: normalize_minus_2 format_2) (simp add: js_def)

lemma tokenize_m2: "tokenize (js ''-2'') = [js ''2'']"
  by (simp add: tokenize_def isOp_single chars)
lemma toRPN_2: "toRPN [js ''2''] = [RNum (Fin 2)]"
  by (simp add: toRPN_eval Number_digit Number_op)
lemma evalRPN_2: "evalRPN [RNum (Fin 2)] = Fin 2"
  unfolding evalRPN_def by simp
lemma compute_m2: "compute (js ''-2'') = JStr (js ''2'')"
  unfolding compute_def Let_def tokenize_m2 toRPN_2 evalRPN_2
  by (simp add: normalize_2 format_2) (simp add: js_def)

lemma press_eq_3m5: "press (js ''='') \<lparr>expr = js ''3'' @ [MINUS] @ js ''5'', display = js ''5''\<rparr> = Some \<lparr>expr = js ''-2'', display = js ''-2''\<rparr>"
  using compute_3m5 unfolding press_def by (simp add: js_def)
lemma press_eq_m2: "press (js ''='') \<lparr>expr = js ''-2'', display = js ''-2''\<rparr> = Some \<lparr>expr = js ''2'', display = js ''2''\<rparr>"
  using compute_m2 unfolding press_def by (simp add: js_def)

text \<open>
  Claim C4: the claim says that a second Evaluate key leaves \<open>expr\<close> and \<open>display\<close> as
  the first one left them. After \<open>3 - 5 =\<close> both hold \<^verbatim>\<open>"-2"\<close>; the tokenizer drops
  the ASCII minus sign of that result, so the second Evaluate key turns both into \<^verbatim>\<open>"2"\<close>.
\<close>

theorem evaluate_twice_negative:
  "presses [js ''3'', [MINUS], js ''5'', js ''=''] init = Some \<lparr>expr = js ''-2'', display = js ''-2''\<rparr>
   \<and> presses [js ''3'', [MINUS], js ''5'', js ''='', js ''=''] init = Some \<lparr>expr = js ''2'', display = js ''2''\<rparr>"
  using press_3 press_3_minus press_3_minus_5 press_eq_3m5 press_eq_m2 by simp

section \<open>The final stack of the evaluator\<close>

text \<open>
  Claim C1, as stated, fails: the claim has an empty final stack evaluate to \<open>0\<close> and
  every final stack of two or more values evaluate to \<^verbatim>\<open>NaN\<close>. The empty postfix
  sequence evaluates to \<^verbatim>\<open>NaN\<close>, and the sequence \<open>1 2\<close>, which leaves two values on
  the stack, evaluates to \<open>1\<close>.
\<close>

theorem evalRPN_leftover_counterexample:
  "evalRPN [] = NaN \<and> evalRPN [] \<noteq> Fin 0
   \<and> evalRPN_loop [RNum (Fin 1), RNum (Fin 2)] [] = Inr [Fin 1, Fin 2]
   \<and> evalRPN [RNum (Fin 1), RNum (Fin 2)] = Fin 1"
  by (simp add: evalRPN_def)

lemma toRPN_Nil: "toRPN [] = []"
  by (simp add: toRPN_def pop_while_Nil)

text \<open>
  Claim C1, amended: when every token has been consumed, \<^verbatim>\<open>evalRPN\<close> returns
  \<^verbatim>\<open>NaN\<close> if the stack is empty and the remaining value if exactly one value remains;
  so a non-empty input without any token makes \<^verbatim>\<open>compute\<close> return \<^verbatim>\<open>"Err"\<close>.
\<close>

theorem evalRPN_final_stack:
  "(evalRPN_loop rpn [] = Inr [] \<longrightarrow> evalRPN rpn = NaN)
   \<and> (evalRPN_loop rpn [] = Inr [x] \<longrightarrow> evalRPN rpn = x)
   \<and> (s \<noteq> [] \<and> tokenize s = [] \<longrightarrow> compute s = JStr (js ''Err''))"
  by (simp add: evalRPN_def compute_def toRPN_Nil)

text \<open>
  Claim C1, witness: the empty sequence, the sequence of the single number \<open>7\<close>, and
  the input \<^verbatim>\<open>"x"\<close>.
\<close>

theorem evalRPN_final_stack_witness:
  "evalRPN_loop [] [] = Inr [] \<and> evalRPN [] = NaN
   \<and> evalRPN_loop [RNum (Fin 7)] [] = Inr [Fin 7] \<and> evalRPN [RNum (Fin 7)] = Fin 7
   \<and> js ''x'' \<noteq> [] \<and> tokenize (js ''x'') = [] \<and> compute (js ''x'') = JStr (js ''Err'')"
proof -
  have t: "js ''x'' \<noteq> [] \<and> tokenize (js ''x'') = []"
    by (simp add: tokenize_def isOp_single chars)
  show ?thesis
    using evalRPN_final_stack [of "[]" "Fin 0" "js ''x''"]
      evalRPN_final_stack [of "[RNum (Fin 7)]" "Fin 7" "js ''x''"] t
    by simp
qed

section \<open>A digit after a percent sign\<close>

lemma press_2: "press (js ''2'') init = Some \<lparr>expr = js ''2'', display = js ''2''\<rparr>"
  by (simp add: press_eval)

lemma press_2_pct:
  "press (js ''%'') \<lparr>expr = js ''2'', display = js ''2''\<rparr>
     = Some \<lparr>expr = js ''2%'', display = js ''%''\<rparr>"
  by (simp add: press_eval)

lemma press_2_pct_3:
  "press (js ''3'') \<lparr>expr = js ''2%'', display = js ''%''\<rparr>
     = Some \<lparr>expr = js ''2%3'', display = js ''3''\<rparr>"
  by (simp add: press_eval)

lemma tokenize_2pct3: "tokenize (js ''2%3'') = [js ''2'', js ''%'', js ''3'']"
  by (simp add: tokenize_def isOp_single chars)

lemma toRPN_2pct3:
  "toRPN [js ''2'', js ''%'', js ''3''] = [RNum (Fin 2), RNum (Fin 3), RStr (js ''%'')]"
  by (simp add: toRPN_eval Number_digit Number_op)

lemma evalRPN_loop_2pct3:
  "evalRPN_loop [RNum (Fin 2), RNum (Fin 3), RStr (js ''%'')] []
     = Inr [Fin 2, Fin (1080863910568919 / 36028797018963968)]"
  using jdiv_3_100 by (simp add: pop_def del: jdiv.simps)

lemma not_wf_2pct3: "\<not> wf_prefix [js ''2'', js ''%'', js ''3'']"
  by (simp add: wf_prefix_def is_literal_def is_binop_def Number_digit) (simp add: chars)

text \<open>
  Claim C2: the claim says that the buffer always tokenizes to a well-formed prefix of an
  infix expression. The keys \<open>2\<close>, \<^verbatim>\<open>%\<close>, \<open>3\<close> give the buffer \<^verbatim>\<open>"2%3"\<close>: the digit
  branch of \<^verbatim>\<open>press\<close> does not look for a percent sign before it. Its tokens are two
  operands with no binary operator between them, the postfix form leaves two values on
  the stack, and \<^verbatim>\<open>compute\<close> returns \<^verbatim>\<open>"2"\<close>.
\<close>

theorem digit_after_percent:
  "presses [js ''2'', js ''%'', js ''3''] init = Some \<lparr>expr = js ''2%3'', display = js ''3''\<rparr>
   \<and> tokenize (js ''2%3'') = [js ''2'', js ''%'', js ''3'']
   \<and> \<not> wf_prefix (tokenize (js ''2%3''))
   \<and> toRPN (tokenize (js ''2%3'')) = [RNum (Fin 2), RNum (Fin 3), RStr (js ''%'')]
   \<and> evalRPN_loop (toRPN (tokenize (js ''2%3''))) []
         = Inr [Fin 2, Fin (1080863910568919 / 36028797018963968)]
   \<and> compute (js ''2%3'') = JStr (js ''2'')"
proof -
  have "compute (js ''2%3'') = JStr (js ''2'')"
    unfolding compute_def Let_def tokenize_2pct3 toRPN_2pct3 evalRPN_def evalRPN_loop_2pct3
    by (simp add: normalize_2 format_2) (simp add: js_def)
  then show ?thesis
    unfolding tokenize_2pct3 toRPN_2pct3 evalRPN_loop_2pct3
    using press_2 press_2_pct press_2_pct_3 not_wf_2pct3 by simp
qed

section \<open>Keys outside the logical key alphabet\<close>

lemma str_range:
  "str_le (js ''0'') k \<and> str_le k (js ''9'') \<longleftrightarrow> k \<noteq> [] \<and> (48 \<le> hd k \<and> hd k \<le> 56 \<or> k = [57])"
  apply (cases k) apply (simp add: js_def)
  subgoal for c cs by (cases cs) (auto simp: js_def)
  done

text \<open>
  Claim C9, as stated, fails: the empty string and a run of neighbouring operator glyphs
  pass \<^verbatim>\<open>isOp\<close>, and a string such as \<^verbatim>\<open>"12"\<close> lies between \<^verbatim>\<open>"0"\<close> and
  \<^verbatim>\<open>"9"\<close> in the string order; none of them is in the alphabet and each changes the
  state.
\<close>

theorem press_other_key_counterexample:
  "[] \<notin> set alphabet
   \<and> press [] \<lparr>expr = js ''1'', display = js ''1''\<rparr> = Some \<lparr>expr = js ''1'', display = []\<rparr>
   \<and> js ''12'' \<notin> set alphabet
   \<and> press (js ''12'') \<lparr>expr = js ''1'', display = js ''1''\<rparr>
        = Some \<lparr>expr = js ''112'', display = js ''112''\<rparr>
   \<and> [PLUS, MINUS] \<notin> set alphabet
   \<and> press [PLUS, MINUS] \<lparr>expr = js ''1'', display = js ''1''\<rparr>
        = Some \<lparr>expr = js ''1'' @ [PLUS, MINUS], display = [PLUS, MINUS]\<rparr>"
  by (simp add: alphabet_def press_eval)

text \<open>
  Claim C9, amended: a key outside the logical key alphabet leaves the state unchanged
  provided it is not empty, does not start with one of the digits \<open>0\<close> to \<open>8\<close>, and is
  not a run of two or more neighbouring glyphs of the operator string. In particular
  every other key of one code unit is a no-op.
\<close>

theorem press_other_key:
  assumes "k \<notin> set alphabet"
    and "k \<noteq> []"
    and "hd k < 48 \<or> 56 < hd k"
    and "k \<notin> {[PLUS, MINUS], [MINUS, TIMES], [TIMES, DIVIDE], [PLUS, MINUS, TIMES],
               [MINUS, TIMES, DIVIDE], [PLUS, MINUS, TIMES, DIVIDE]}"
  shows "press k st = Some st"
proof -
  have named: "k \<noteq> js ''C''" "k \<noteq> js ''DEL''" "k \<noteq> js ''=''" "k \<noteq> js ''.''" "k \<noteq> js ''%''"
    using assms(1) by (auto simp: alphabet_def)
  have op: "\<not> isOp k"
    using assms(1,2,4) by (auto simp: isOp_iff alphabet_def)
  have "k \<noteq> [57]"
    using assms(1) by (auto simp: alphabet_def js_def)
  then have digit: "(str_le (js ''0'') k \<and> str_le k (js ''9'')) = False"
    using assms(3) unfolding str_range by auto
  show ?thesis
    unfolding press_def digit using named op by simp
qed

text \<open>
  Claim C9, witness: the key \<^verbatim>\<open>"Enter"\<close>.
\<close>

theorem press_other_key_witness:
  "js ''Enter'' \<notin> set alphabet \<and> press (js ''Enter'') init = Some init"
proof -
  have "js ''Enter'' \<notin> set alphabet"
    by (simp add: alphabet_def chars)
  then show ?thesis
    using press_other_key [of "js ''Enter''" init] by (simp add: chars)
qed

section \<open>General facts about the state machine\<close>

lemma at_last_snoc: "at_last (s @ [c]) = Some [c]"
  by (simp add: at_last_def)

lemma tail_match_nonempty: "s \<noteq> [] \<Longrightarrow> tail_match s \<noteq> []"
  by (simp add: tail_match_def Let_def)

lemma tailDisplay_nonempty: "s \<noteq> [] \<Longrightarrow> tailDisplay s \<noteq> []"
  by (auto simp: tailDisplay_def at_last_def tail_match_nonempty)

lemma tailDisplay_snoc_op: "isOp [c] \<Longrightarrow> tailDisplay (e @ [c]) = [c]"
  by (simp add: tailDisplay_def at_last_snoc)

lemma digits_of_nonempty: "digits_of n \<noteq> []"
  by (subst digits_of.simps) simp

lemma format_pos_nonempty: "format_pos x \<noteq> []"
  using digits_of_nonempty
  by (auto simp: format_pos_def Let_def js_def split: prod.splits)

lemma String_num_nonempty: "String_num x \<noteq> []"
  by (cases x) (simp_all add: format_pos_nonempty js_def)

lemma compute_nonempty: "s \<noteq> [] \<Longrightarrow> \<exists>r. compute s = JStr r \<and> r \<noteq> []"
  by (simp add: compute_def Let_def String_num_nonempty js_def)

lemma compute_JNum: "compute s = JNum n \<longleftrightarrow> s = [] \<and> n = Fin 0"
  by (auto simp: compute_def Let_def)

section \<open>The display is not empty\<close>

lemma press_display_nonempty:
  assumes "k \<noteq> []" and "display st \<noteq> []"
  shows "\<exists>st'. press k st = Some st' \<and> display st' \<noteq> []"
proof -
  let ?arg = "if expr st \<noteq> [] then expr st else display st"
  have "?arg \<noteq> []"
    using assms(2) by simp
  then obtain r where r: "compute ?arg = JStr r" "r \<noteq> []"
    using compute_nonempty by blast
  show ?thesis
    unfolding press_def Let_def using assms r
    by (auto simp: tailDisplay_nonempty js_def)
qed

lemma presses_display_nonempty:
  "\<forall>k\<in>set ks. k \<noteq> [] \<Longrightarrow> display st \<noteq> [] \<Longrightarrow>
     \<exists>st'. presses ks st = Some st' \<and> display st' \<noteq> []"
proof (induction ks arbitrary: st)
  case Nil
  then show ?case by simp
next
  case (Cons k ks)
  then obtain st1 where "press k st = Some st1" "display st1 \<noteq> []"
    using press_display_nonempty [of k st] by auto
  then show ?case
    using Cons.IH [of st1] Cons.prems(1) by simp
qed

text \<open>
  Claim C10, as stated, fails: \<^verbatim>\<open>press('1')\<close> followed by \<^verbatim>\<open>press('')\<close> leaves the
  display empty, because the empty string passes \<^verbatim>\<open>isOp\<close> and line 169 copies the
  key into the display.
\<close>

theorem display_never_empty_counterexample:
  "presses [js ''1'', []] init = Some \<lparr>expr = js ''1'', display = []\<rparr>"
  by (simp add: press_eval)

text \<open>
  Claim C10, amended: after any finite sequence of \<^verbatim>\<open>press\<close> calls with non-empty
  keys, from the initial state, the display is a non-empty string. This covers every
  sequence of keys of the logical key alphabet.
\<close>

theorem display_never_empty:
  "\<forall>k\<in>set ks. k \<noteq> [] \<Longrightarrow> \<exists>st. presses ks init = Some st \<and> display st \<noteq> []"
  using presses_display_nonempty [of ks init] by (simp add: init_def js_def)

text \<open>
  Claim C10, witness: the keys \<open>7\<close>, times, \<^verbatim>\<open>C\<close>.
\<close>

theorem display_never_empty_witness:
  "\<exists>st. presses [js ''7'', [TIMES], js ''C''] init = Some st \<and> display st \<noteq> []"
proof -
  have "\<forall>k\<in>set [js ''7'', [TIMES], js ''C'']. k \<noteq> []"
    by (simp add: js_def)
  then show ?thesis
    by (rule display_never_empty)
qed

section \<open>The display is the tail of the buffer\<close>

lemma press_restores_tail:
  assumes "k \<in> set alphabet" and "k \<noteq> js ''=''"
  shows "\<exists>st'. press k st = Some st' \<and> (st' = st \<or> shows_tail st')"
proof -
  consider "k = js ''C''" | "k = js ''DEL''" | "k = js ''.''" | "k = js ''%''"
    | c where "k = [c]" "isOp [c]" | c where "k = [c]" "is_digit c"
    using assms by (auto simp: alphabet_def isOp_single is_digit_def js_def)
  then show ?thesis
  proof cases
    case 5
    then show ?thesis
      using tailDisplay_snoc_op [of c] tailDisplay_snoc_op [of c "[48]"]
      by (auto simp: press_def Let_def shows_tail_def isOp_single chars)
  next
    case 6
    then have "\<not> isOp k"
      by (auto simp: isOp_single chars)
    moreover have "str_le (js ''0'') k \<and> str_le k (js ''9'')"
      using 6 unfolding str_range by (auto simp: is_digit_def)
    ultimately show ?thesis
      using 6 by (auto simp: press_def Let_def shows_tail_def js_def is_digit_def)
  qed (auto simp: press_def Let_def shows_tail_def js_def)
qed

lemma press_shows_tail:
  assumes "k \<in> set alphabet" and "k \<noteq> js ''=''" and "shows_tail st"
  shows "\<exists>st'. press k st = Some st' \<and> shows_tail st'"
  using press_restores_tail [OF assms(1,2), of st] assms(3) by auto

lemma presses_shows_tail:
  "\<forall>k\<in>set ks. k \<in> set alphabet \<and> k \<noteq> js ''='' \<Longrightarrow> shows_tail st \<Longrightarrow>
     \<exists>st'. presses ks st = Some st' \<and> shows_tail st'"
proof (induction ks arbitrary: st)
  case Nil
  then show ?case by simp
next
  case (Cons k ks)
  then obtain st1 where "press k st = Some st1" "shows_tail st1"
    using press_shows_tail [of k st] by auto
  then show ?case
    using Cons.IH [of st1] Cons.prems(1) by simp
qed


text \<open>
  Claim C6, as stated, fails: after \<open>1\<close>, \<^verbatim>\<open>DEL\<close> the buffer is empty, its projection
  is the empty string and the display is \<^verbatim>\<open>"0"\<close>; and after \<open>1\<close> and a key made of
  two operator glyphs the display holds both glyphs and the projection only the last.
\<close>

theorem tail_display_counterexample:
  "presses [js ''1'', js ''DEL''] init = Some \<lparr>expr = [], display = js ''0''\<rparr>
   \<and> tailDisplay [] = [] \<and> tailDisplay [] \<noteq> js ''0''
   \<and> presses [js ''1'', [PLUS, MINUS]] init
        = Some \<lparr>expr = js ''1'' @ [PLUS, MINUS], display = [PLUS, MINUS]\<rparr>
   \<and> tailDisplay (js ''1'' @ [PLUS, MINUS]) = [MINUS]"
  by (simp add: press_eval)

text \<open>
  Claim C6, amended: after any finite sequence of keys of the logical key alphabet other
  than \<^verbatim>\<open>=\<close>, from the initial state: if the buffer is not empty, its projection
  \<^verbatim>\<open>tailDisplay(expr)\<close> is not empty and equals the display; if the buffer is empty,
  the display is \<^verbatim>\<open>"0"\<close>. Moreover, from any state whatever, one such key either
  changes nothing or establishes that relation.
\<close>

theorem tail_display_round_trip:
  "((\<forall>k\<in>set ks. k \<in> set alphabet \<and> k \<noteq> js ''='') \<longrightarrow>
      (\<exists>st. presses ks init = Some st
         \<and> (if expr st = [] then display st = js ''0''
             else tailDisplay (expr st) \<noteq> [] \<and> tailDisplay (expr st) = display st)))
   \<and> (k \<in> set alphabet \<and> k \<noteq> js ''='' \<longrightarrow>
      (\<exists>st'. press k st0 = Some st'
         \<and> (st' = st0 \<or>
             (if expr st' = [] then display st' = js ''0''
              else tailDisplay (expr st') \<noteq> [] \<and> tailDisplay (expr st') = display st'))))"
proof (intro conjI impI)
  assume keys: "\<forall>k\<in>set ks. k \<in> set alphabet \<and> k \<noteq> js ''=''"
  have "shows_tail init"
    by (simp add: shows_tail_def init_def)
  then obtain st where "presses ks init = Some st" "shows_tail st"
    using presses_shows_tail [OF keys] by blast
  then show "\<exists>st. presses ks init = Some st
         \<and> (if expr st = [] then display st = js ''0''
             else tailDisplay (expr st) \<noteq> [] \<and> tailDisplay (expr st) = display st)"
    using tailDisplay_nonempty [of "expr st"] by (auto simp: shows_tail_def)
next
  assume "k \<in> set alphabet \<and> k \<noteq> js ''=''"
  then obtain st' where "press k st0 = Some st'" "st' = st0 \<or> shows_tail st'"
    using press_restores_tail [of k st0] by blast
  then show "\<exists>st'. press k st0 = Some st'
         \<and> (st' = st0 \<or>
             (if expr st' = [] then display st' = js ''0''
              else tailDisplay (expr st') \<noteq> [] \<and> tailDisplay (expr st') = display st'))"
    using tailDisplay_nonempty [of "expr st'"] by (auto simp: shows_tail_def)
qed

text \<open>
  Claim C6, witness: the keys \<open>1\<close>, point, \<open>5\<close>, times from the initial state, and
  the key \<open>7\<close> in the state that \<open>3 - 5 =\<close> leaves.
\<close>

theorem tail_display_round_trip_witness:
  "presses [js ''1'', js ''.'', js ''5'', [TIMES]] init
     = Some \<lparr>expr = js ''1.5'' @ [TIMES], display = [TIMES]\<rparr>
   \<and> tailDisplay (js ''1.5'' @ [TIMES]) = [TIMES]
   \<and> press (js ''7'') \<lparr>expr = js ''-2'', display = js ''-2''\<rparr>
     = Some \<lparr>expr = js ''-27'', display = js ''27''\<rparr>
   \<and> tailDisplay (js ''-27'') = js ''27''"
proof -
  have "(\<forall>k\<in>set [js ''1'', js ''.'', js ''5'', [TIMES]]. k \<in> set alphabet \<and> k \<noteq> js ''='')
        \<and> js ''7'' \<in> set alphabet \<and> js ''7'' \<noteq> js ''=''"
    by (simp add: alphabet_def chars)
  with tail_display_round_trip [of "[js ''1'', js ''.'', js ''5'', [TIMES]]" "js ''7''"
      "\<lparr>expr = js ''-2'', display = js ''-2''\<rparr>"]
  show ?thesis
    by (simp add: press_eval)
qed

section \<open>Pressing the plus key twice\<close>

lemma at_last_Some: "at_last s = Some [c] \<longleftrightarrow> s \<noteq> [] \<and> last s = c"
  by (auto simp: at_last_def)

lemma at_last_snocD: "at_last s = Some [c] \<Longrightarrow> s = butlast s @ [c]"
  using append_butlast_last_id [of s] by (auto simp: at_last_def split: if_splits)

lemma press_op_nonempty:
  "expr st \<noteq> [] \<Longrightarrow>
   press [PLUS] st =
     Some \<lparr>expr = (let e1 = (if isOp_at (at_last (expr st)) then butlast (expr st) else expr st)
                   in if at_last e1 = Some [DOT] then butlast e1 else e1) @ [PLUS],
           display = [PLUS]\<rparr>"
  by (simp add: press_def Let_def isOp_single chars)

text \<open>
  Claim C8, as stated, fails on a buffer that ends in two decimal points, here reached
  with the key \<^verbatim>\<open>"1.."\<close>: the first plus strips one point, the second plus drops the
  pending plus and strips the other point.
\<close>

theorem plus_twice_counterexample:
  "presses [js ''1..'', [PLUS]] init = Some \<lparr>expr = js ''1.'' @ [PLUS], display = [PLUS]\<rparr>
   \<and> presses [js ''1..'', [PLUS], [PLUS]] init = Some \<lparr>expr = js ''1'' @ [PLUS], display = [PLUS]\<rparr>"
  by (simp add: press_eval)

text \<open>
  Claim C8, amended: for every state whose buffer is not empty and holds no two
  neighbouring decimal points, pressing plus twice gives the state that pressing it once
  gives. Lemma \<open>reachable_no_dotdot\<close> below shows that every buffer reached with keys
  of the logical key alphabet is of that kind.
\<close>

theorem plus_twice:
  assumes "expr st \<noteq> []" and "\<not> sublist [DOT, DOT] (expr st)"
  shows "\<exists>st1. press [PLUS] st = Some st1 \<and> press [PLUS] st1 = Some st1"
proof -
  define e1 where "e1 = (if isOp_at (at_last (expr st)) then butlast (expr st) else expr st)"
  define e2 where "e2 = (if at_last e1 = Some [DOT] then butlast e1 else e1)"
  have 1: "press [PLUS] st = Some \<lparr>expr = e2 @ [PLUS], display = [PLUS]\<rparr>"
    using press_op_nonempty [OF assms(1)] by (simp add: e1_def e2_def Let_def)
  have nodots: "\<not> sublist [DOT, DOT] e1"
    using assms(2) sublist_order.order_trans [OF _ sublist_butlast]
    by (auto simp: e1_def)
  have "at_last e2 \<noteq> Some [DOT]"
  proof
    assume a: "at_last e2 = Some [DOT]"
    show False
    proof (cases "at_last e1 = Some [DOT]")
      case True
      then obtain ys where ys: "e1 = ys @ [DOT]"
        using at_last_snocD by blast
      have "e2 = ys"
        using True by (simp add: e2_def ys)
      then obtain zs where "ys = zs @ [DOT]"
        using a at_last_snocD by blast
      then have "e1 = zs @ [DOT, DOT] @ []"
        using ys by simp
      then have "sublist [DOT, DOT] e1"
        unfolding sublist_def by blast
      then show False
        using nodots by simp
    next
      case False
      then show False
        using a by (simp add: e2_def)
    qed
  qed
  then have 2: "press [PLUS] \<lparr>expr = e2 @ [PLUS], display = [PLUS]\<rparr>
                  = Some \<lparr>expr = e2 @ [PLUS], display = [PLUS]\<rparr>"
    using press_op_nonempty [of "\<lparr>expr = e2 @ [PLUS], display = [PLUS]\<rparr>"]
    by (simp add: at_last_snoc isOp_at_def isOp_single Let_def)
  show ?thesis
    using 1 2 by simp
qed

text \<open>
  Claim C8, witness: the buffer \<^verbatim>\<open>"1."\<close>.
\<close>

theorem plus_twice_witness:
  "press [PLUS] \<lparr>expr = js ''1.'', display = js ''1.''\<rparr>
     = Some \<lparr>expr = js ''1'' @ [PLUS], display = [PLUS]\<rparr>
   \<and> press [PLUS] \<lparr>expr = js ''1'' @ [PLUS], display = [PLUS]\<rparr>
     = Some \<lparr>expr = js ''1'' @ [PLUS], display = [PLUS]\<rparr>"
proof -
  have "\<not> sublist [DOT, DOT] (js ''1.'')"
    by (simp add: chars sublist_Cons_right prefix_Cons)
  from plus_twice [of "\<lparr>expr = js ''1.'', display = js ''1.''\<rparr>"] this
  show ?thesis
    by (simp add: press_eval)
qed

section \<open>The shape of printed numbers\<close>

lemma digits_of_digits: "set (digits_of n) \<subseteq> {48..57}"
proof (induction n rule: digits_of.induct)
  case (1 n)
  show ?case
  proof (cases "n < 10")
    case True
    then show ?thesis
      by (subst digits_of.simps) simp
  next
    case False
    have "n mod 10 < 10"
      by simp
    then have "48 + n mod 10 \<in> {48..57}"
      by auto
    then show ?thesis
      using False "1.IH" by (subst digits_of.simps) auto
  qed
qed

lemma hd_digits_of: "hd (digits_of n) \<in> {48..57}"
  using digits_of_digits [of n] digits_of_nonempty [of n] hd_in_set by blast

lemma DOT_notin_digits: "DOT \<notin> set (digits_of n)"
  using digits_of_digits [of n] by (auto simp: DOT_def)

lemma sublist2_Nil [simp]: "\<not> sublist [a, b] []"
  by simp

lemma sublist2_single [simp]: "\<not> sublist [a, b] [c]"
  by (simp add: sublist_Cons_right prefix_Cons)

lemma sublist2_Cons:
  "sublist [a, b] (c # d # s) \<longleftrightarrow> (a = c \<and> b = d) \<or> sublist [a, b] (d # s)"
  by (auto simp: sublist_Cons_right prefix_Cons)

lemma sublist2_append:
  "sublist [a, b] (xs @ ys) \<longleftrightarrow>
     sublist [a, b] xs \<or> sublist [a, b] ys \<or> (xs \<noteq> [] \<and> ys \<noteq> [] \<and> last xs = a \<and> hd ys = b)"
proof (induction xs rule: induct_list012)
  case 1
  then show ?case by simp
next
  case (2 x)
  then show ?case
    by (cases ys) (auto simp: sublist2_Cons)
next
  case (3 x y zs)
  then show ?case
    by (auto simp: sublist2_Cons)
qed

lemma no_dots_no_dotdot: "DOT \<notin> set s \<Longrightarrow> \<not> sublist [DOT, DOT] s"
  by (induction s rule: induct_list012) (auto simp: sublist2_Cons)


lemma one_dot_no_dotdot: "count_list s DOT \<le> 1 \<Longrightarrow> \<not> sublist [DOT, DOT] s"
  by (induction s rule: induct_list012) (auto simp: sublist2_Cons split: if_splits)

lemma count_DOT_digits: "set s \<subseteq> set (digits_of n) \<Longrightarrow> count_list s DOT = 0"
  using DOT_notin_digits [of n] by (auto simp: count_list_0_iff)

lemma count_DOT_format_pos: "count_list (format_pos x) DOT \<le> 1"
proof -
  obtain s n where sn: "shortest x 1 = (s, n)"
    by (cases "shortest x 1")
  have 1: "count_list (digits_of m) DOT = 0" for m
    by (rule count_DOT_digits [of _ m]) simp
  have 2: "count_list (take i (digits_of s)) DOT = 0" for i
    by (rule count_DOT_digits [of _ s]) (rule set_take_subset)
  have 3: "count_list (drop i (digits_of s)) DOT = 0" for i
    by (rule count_DOT_digits [of _ s]) (rule set_drop_subset)
  have 4: "count_list (tl (digits_of s)) DOT = 0"
    using 3 [of 1] by (simp add: drop_Suc)
  have 5: "hd (digits_of s) \<noteq> DOT"
    using hd_digits_of [of s] by (auto simp: DOT_def)
  show ?thesis
    unfolding format_pos_def sn Let_def
    by (simp add: 1 [unfolded DOT_def] 2 [unfolded DOT_def] 3 [unfolded DOT_def]
          4 [unfolded DOT_def] 5 [unfolded DOT_def] js_def DOT_def ZERO_def)
qed

lemma format_pos_no_dotdot: "\<not> sublist [DOT, DOT] (format_pos x)"
  using count_DOT_format_pos by (rule one_dot_no_dotdot)

lemma hd_format_pos: "hd (format_pos x) \<in> {48..57}"
proof -
  obtain s n where sn: "shortest x 1 = (s, n)"
    by (cases "shortest x 1")
  have 1: "digits_of s \<noteq> []"
    by (rule digits_of_nonempty)
  have 2: "hd (digits_of s) \<in> {48..57}"
    by (rule hd_digits_of)
  have 3: "0 < i \<Longrightarrow> hd (take i (digits_of s)) = hd (digits_of s)" for i
    using 1 by (cases "digits_of s"; cases i) auto
  show ?thesis
    unfolding format_pos_def sn Let_def using 1 2 3 [of "nat n"]
    by (auto simp: js_def)
qed

lemma String_num_no_dotdot: "\<not> sublist [DOT, DOT] (String_num x)"
proof (cases x)
  case (Fin a)
  have "\<not> sublist [DOT, DOT] (js ''-'' @ format_pos (- a))"
    using format_pos_no_dotdot [of "- a"]
    by (simp add: sublist_Cons_right prefix_Cons js_def DOT_def)
  then show ?thesis
    using Fin format_pos_no_dotdot [of a] by (simp add: js_def DOT_def sublist2_Cons)
qed (simp_all add: js_def DOT_def sublist2_Cons)

lemma hd_String_num: "hd (String_num x) \<in> {48..57} \<union> {45, 73, 78}"
  using hd_format_pos by (cases x) (auto simp: js_def)

section \<open>Buffers reached with the logical keys\<close>

lemma compute_no_dotdot: "compute s = JStr r \<Longrightarrow> \<not> sublist [DOT, DOT] r"
  using String_num_no_dotdot
  by (auto simp: compute_def Let_def js_def DOT_def sublist2_Cons split: if_splits)

lemma butlast_no_dotdot: "\<not> sublist [DOT, DOT] e \<Longrightarrow> \<not> sublist [DOT, DOT] (butlast e)"
  using sublist_order.order_trans [OF _ sublist_butlast] by blast

lemma snoc_no_dotdot: "\<not> sublist [a, a] e \<Longrightarrow> c \<noteq> a \<Longrightarrow> \<not> sublist [a, a] (e @ [c])"
  by (simp add: sublist2_append)

lemma press_no_dotdot:
  assumes "k \<in> set alphabet" and "display st \<noteq> []" and "\<not> sublist [DOT, DOT] (expr st)"
  shows "\<exists>st'. press k st = Some st' \<and> display st' \<noteq> [] \<and> \<not> sublist [DOT, DOT] (expr st')"
proof -
  have "k \<noteq> []"
    using assms(1) by (auto simp: alphabet_def js_def)
  then obtain st' where st': "press k st = Some st'" "display st' \<noteq> []"
    using press_display_nonempty [OF _ assms(2)] by blast
  note nd = assms(3) butlast_no_dotdot [OF assms(3)]
    butlast_no_dotdot [OF butlast_no_dotdot [OF assms(3)]]
  consider "k = js ''C''" | "k = js ''DEL''" | "k = js ''=''" | "k = js ''.''" | "k = js ''%''"
    | c where "k = [c]" "isOp [c]" | c where "k = [c]" "is_digit c"
    using assms(1) by (auto simp: alphabet_def isOp_single is_digit_def js_def)
  then have "\<not> sublist [DOT, DOT] (expr st')"
  proof cases
    case 3
    then show ?thesis
      using st' compute_no_dotdot
      by (auto simp: press_def js_def split: jsval.splits if_splits)
  next
    case 4
    then show ?thesis
      using st' nd
      by (auto simp: press_def Let_def js_def sublist2_append ends_in_digit_def is_digit_def
            DOT_def sublist2_Cons split: if_splits)
  next
    case 6
    then have "c \<noteq> DOT"
      by (auto simp: isOp_single chars)
    then show ?thesis
      using 6 st' nd
      by (auto simp: press_def Let_def isOp_single snoc_no_dotdot sublist2_Cons chars
            split: if_splits)
  next
    case 7
    then have c: "c \<noteq> DOT" "\<not> isOp [c]"
      by (auto simp: isOp_single chars)
    have "str_le (js ''0'') k \<and> str_le k (js ''9'')"
      using 7 unfolding str_range by (auto simp: is_digit_def)
    then show ?thesis
      using 7 c st' nd
      by (auto simp: press_def Let_def js_def snoc_no_dotdot is_digit_def split: if_splits)
  qed (use st' nd in \<open>auto simp: press_def Let_def js_def snoc_no_dotdot DOT_def split: if_splits\<close>)
  then show ?thesis
    using st' by blast
qed

lemma alphabet_no_dotdot:
  "\<forall>k\<in>set ks. k \<in> set alphabet \<Longrightarrow> display st \<noteq> [] \<Longrightarrow> \<not> sublist [DOT, DOT] (expr st) \<Longrightarrow>
     \<exists>st'. presses ks st = Some st' \<and> display st' \<noteq> [] \<and> \<not> sublist [DOT, DOT] (expr st')"
proof (induction ks arbitrary: st)
  case Nil
  then show ?case by simp
next
  case (Cons k ks)
  then obtain st1 where "press k st = Some st1" "display st1 \<noteq> []" "\<not> sublist [DOT, DOT] (expr st1)"
    using press_no_dotdot [of k st] by auto
  then show ?case
    using Cons.IH [of st1] Cons.prems(1) by simp
qed

lemma reachable_no_dotdot:
  "\<forall>k\<in>set ks. k \<in> set alphabet \<Longrightarrow>
     \<exists>st. presses ks init = Some st \<and> \<not> sublist [DOT, DOT] (expr st)"
  using alphabet_no_dotdot [of ks init] by (auto simp: init_def js_def)

section \<open>The branches of press, and its totality on strings\<close>

lemma butlast_keeps_hd: "e \<noteq> [] \<Longrightarrow> last e \<noteq> hd e \<Longrightarrow> butlast e \<noteq> [] \<and> hd (butlast e) = hd e"
  by (cases e) (auto split: if_splits)

lemma hd_butlast_cases: "butlast e \<noteq> [] \<Longrightarrow> hd (butlast e) = hd e"
  by (cases e) (auto split: if_splits)

lemma compute_hd:
  assumes "s \<noteq> []"
  shows "\<exists>r. compute s = JStr r \<and> r \<noteq> [] \<and> hd r \<notin> {DOT, PLUS, MINUS, TIMES, DIVIDE}"
proof -
  have "hd (String_num x) \<notin> {DOT, PLUS, MINUS, TIMES, DIVIDE}" for x
    using hd_String_num [of x] by (auto simp: chars)
  then show ?thesis
    using assms String_num_nonempty by (auto simp: compute_def Let_def chars)
qed

lemma strip_keeps_hd:
  assumes "e \<noteq> []" and "hd e \<notin> {DOT, PLUS, MINUS, TIMES, DIVIDE}"
  defines "e1 \<equiv> (if isOp_at (at_last e) then butlast e else e)"
  defines "e2 \<equiv> (if at_last e1 = Some (js ''.'') then butlast e1 else e1)"
  shows "e2 \<noteq> [] \<and> hd e2 = hd e"
proof -
  have 1: "e1 \<noteq> [] \<and> hd e1 = hd e"
  proof (cases "isOp_at (at_last e)")
    case True
    then have "last e \<noteq> hd e"
      using assms(1,2) by (auto simp: isOp_at_def at_last_def isOp_single)
    then show ?thesis
      using True butlast_keeps_hd [OF assms(1)] by (simp add: e1_def)
  next
    case False
    then show ?thesis
      using assms(1) by (simp add: e1_def)
  qed
  show ?thesis
  proof (cases "at_last e1 = Some (js ''.'')")
    case True
    then have "last e1 \<noteq> hd e1"
      using 1 assms(2) by (auto simp: at_last_def js_def DOT_def split: if_splits)
    then show ?thesis
      using True 1 butlast_keeps_hd [of e1] by (simp add: e2_def)
  next
    case False
    then show ?thesis
      using 1 by (simp add: e2_def)
  qed
qed

lemma press_C: "press (js ''C'') st = Some \<lparr>expr = [], display = js ''0''\<rparr>"
  by (simp add: press_def)

lemma press_DEL:
  "press (js ''DEL'') st =
     (let e = (if expr st \<noteq> [] then butlast (expr st) else expr st)
      in Some \<lparr>expr = e, display = (if e \<noteq> [] then tailDisplay e else js ''0'')\<rparr>)"
  by (simp add: press_def js_def)

lemma press_EQ:
  "press (js ''='') st =
     (case compute (if expr st \<noteq> [] then expr st else display st) of
        JStr result \<Rightarrow>
          Some \<lparr>expr = (if result = js ''Err'' then [] else result), display = result\<rparr>
      | JNum n \<Rightarrow> None)"
  by (simp add: press_def js_def)

lemma press_DOT:
  "press (js ''.'') st =
     (if DOT \<in> set (getCurrentNumber (expr st)) then Some st
      else let e = expr st @ (if expr st \<noteq> [] \<and> ends_in_digit (expr st)
                              then js ''.'' else js ''0.'')
           in Some \<lparr>expr = e, display = tailDisplay e\<rparr>)"
  by (simp add: press_def js_def)

lemma press_PCT:
  "press (js ''%'') st =
     (if ends_in_digit (expr st)
      then (let e = expr st @ js ''%'' in Some \<lparr>expr = e, display = tailDisplay e\<rparr>)
      else Some st)"
  by (simp add: press_def js_def)

lemma press_OP:
  assumes "k \<notin> {js ''C'', js ''DEL'', js ''='', js ''.'', js ''%''}" and "isOp k"
  shows "press k st =
     (if expr st = [] then
        (if k = [MINUS] then Some \<lparr>expr = js ''0'' @ [MINUS], display = [MINUS]\<rparr>
         else Some st)
      else let e1 = (if isOp_at (at_last (expr st)) then butlast (expr st) else expr st);
               e2 = (if at_last e1 = Some (js ''.'') then butlast e1 else e1)
           in Some \<lparr>expr = e2 @ k, display = k\<rparr>)"
  using assms by (simp add: press_def)

lemma press_DIG:
  assumes "k \<notin> {js ''C'', js ''DEL'', js ''='', js ''.'', js ''%''}" and "\<not> isOp k"
    and "str_le (js ''0'') k \<and> str_le k (js ''9'')"
  shows "press k st =
     (let e = (if expr st \<noteq> [] \<and> last (expr st) = ZERO
                  \<and> (length (expr st) = 1 \<or> isOp_at (at_last2 (expr st)))
                  \<and> k \<noteq> js ''0''
               then butlast (expr st) @ k else expr st @ k)
      in Some \<lparr>expr = e, display = tailDisplay e\<rparr>)"
  using assms by (simp add: press_def)

lemma press_OTHER:
  assumes "k \<notin> {js ''C'', js ''DEL'', js ''='', js ''.'', js ''%''}" and "\<not> isOp k"
    and "\<not> (str_le (js ''0'') k \<and> str_le k (js ''9''))"
  shows "press k st = Some st"
  using assms by (auto simp: press_def)

lemma press_cases [case_names C DEL EQ DOT PCT OP DIG OTHER]:
  obtains "k = js ''C''" | "k = js ''DEL''" | "k = js ''=''" | "k = js ''.''" | "k = js ''%''"
    | "k \<notin> {js ''C'', js ''DEL'', js ''='', js ''.'', js ''%''}" "isOp k"
    | "k \<notin> {js ''C'', js ''DEL'', js ''='', js ''.'', js ''%''}" "\<not> isOp k"
        "str_le (js ''0'') k \<and> str_le k (js ''9'')"
    | "k \<notin> {js ''C'', js ''DEL'', js ''='', js ''.'', js ''%''}" "\<not> isOp k"
        "\<not> (str_le (js ''0'') k \<and> str_le k (js ''9''))"
  by blast

lemma js_Nil_iff: "js s = [] \<longleftrightarrow> s = []"
  by (simp add: js_def)

lemma press_resumable:
  assumes "resumable st"
  shows "\<exists>st'. press k st = Some st' \<and> resumable st'"
proof -
  let ?arg = "if expr st \<noteq> [] then expr st else display st"
  have "?arg \<noteq> []"
    using assms by (simp add: resumable_def)
  then obtain r where r: "compute ?arg = JStr r" "r \<noteq> []"
      "hd r \<notin> {DOT, PLUS, MINUS, TIMES, DIVIDE}"
    using compute_hd by blast
  have bl: "butlast (expr st) \<noteq> [] \<Longrightarrow> hd (butlast (expr st)) \<notin> {DOT, PLUS, MINUS, TIMES, DIVIDE}"
    using assms hd_butlast_cases [of "expr st"] by (auto simp: resumable_def)
  show ?thesis
  proof (cases k rule: press_cases)
    case C
    then show ?thesis
      by (simp add: press_C resumable_def js_Nil_iff)
  next
    case DEL
    then show ?thesis
      using assms bl tailDisplay_nonempty [of "butlast (expr st)"]
      by (auto simp: press_DEL Let_def resumable_def js_Nil_iff)
  next
    case EQ
    then show ?thesis
      using r by (auto simp: press_EQ resumable_def)
  next
    case DOT
    have "hd (expr st @ s) \<notin> {DOT, PLUS, MINUS, TIMES, DIVIDE}"
      if "s = js ''.'' \<and> expr st \<noteq> [] \<or> s = js ''0.''" for s
      using that assms by (auto simp: resumable_def hd_append chars)
    then show ?thesis
      using DOT assms tailDisplay_nonempty
      by (auto simp: press_DOT Let_def resumable_def js_Nil_iff)
  next
    case PCT
    then show ?thesis
      using assms tailDisplay_nonempty
      by (auto simp: press_PCT Let_def resumable_def ends_in_digit_def)
  next
    case OP
    show ?thesis
    proof (cases "expr st = []")
      case True
      then show ?thesis
        using assms by (auto simp: press_OP [OF OP] resumable_def chars)
    next
      case False
      then have h: "hd (expr st) \<notin> {DOT, PLUS, MINUS, TIMES, DIVIDE}"
        using assms by (simp add: resumable_def)
      from strip_keeps_hd [OF False h]
      show ?thesis
        using False h by (simp add: press_OP [OF OP] Let_def resumable_def)
    qed
  next
    case DIG
    then have k: "k \<noteq> []" "hd k \<notin> {DOT, PLUS, MINUS, TIMES, DIVIDE}"
      unfolding str_range by (auto simp: chars)
    have "hd (e @ k) \<notin> {DOT, PLUS, MINUS, TIMES, DIVIDE}"
      if "e = butlast (expr st) \<or> e = expr st" for e
      using that k assms bl by (auto simp: hd_append resumable_def)
    then show ?thesis
      using k by (simp add: press_DIG [OF DIG] Let_def resumable_def tailDisplay_nonempty)
  next
    case OTHER
    then show ?thesis
      using assms by (simp add: press_OTHER)
  qed
qed

lemma presses_resumable:
  "resumable st \<Longrightarrow> \<exists>st'. presses ks st = Some st' \<and> resumable st'"
proof (induction ks arbitrary: st)
  case Nil
  then show ?case by simp
next
  case (Cons k ks)
  then obtain st1 where "press k st = Some st1" "resumable st1"
    using press_resumable [of st k] by auto
  then show ?case
    using Cons.IH [of st1] by simp
qed

lemma presses_Some: "\<exists>st. presses ks init = Some st"
proof -
  have "resumable init"
    by (simp add: resumable_def init_def js_Nil_iff)
  then show ?thesis
    using presses_resumable by blast
qed

end
